theory Spec2Isabelle
  imports Main
begin

section \<open>Byte strings\<close>

text \<open>
  Go byte slices and strings are modelled as \<open>string\<close> (a list of 8-bit characters).
  \<open>bytes.ToLower\<close> is modelled on ASCII: the letters \<open>A\<close>..\<open>Z\<close> are mapped to
  \<open>a\<close>..\<open>z\<close>, every other byte is kept. \<open>bytes.Contains\<close> and \<open>strings.Contains\<close>
  test for a contiguous occurrence; the empty string occurs everywhere.
\<close>

definition lowerByte :: "char \<Rightarrow> char" where
  "lowerByte c =
     (let n = (of_char c :: nat) in if 65 \<le> n \<and> n \<le> 90 then char_of (n + 32) else c)"

definition bytes_ToLower :: "string \<Rightarrow> string" where
  "bytes_ToLower s = map lowerByte s"

fun hasPrefix :: "string \<Rightarrow> string \<Rightarrow> bool" where
  "hasPrefix s [] = True"
| "hasPrefix [] (p # ps) = False"
| "hasPrefix (c # s) (p # ps) = (c = p \<and> hasPrefix s ps)"

fun bytes_Contains :: "string \<Rightarrow> string \<Rightarrow> bool" where
  "bytes_Contains [] sub = (sub = [])"
| "bytes_Contains (c # s) sub = (hasPrefix (c # s) sub \<or> bytes_Contains s sub)"

section \<open>Test filtering: \<open>needToSkipTest\<close>\<close>

text \<open>
  A compiled \<open>*regexp.Regexp\<close> is represented by its \<open>MatchString\<close> function; a nil
  pointer is \<open>None\<close>. The test case enters through its identifier string
  (\<open>testCase.IdString()\<close>).
\<close>

type_synonym regexp = "string \<Rightarrow> bool"

definition needToSkipTest :: "regexp option \<Rightarrow> regexp option \<Rightarrow> string \<Rightarrow> bool" where
  "needToSkipTest include exclude idString =
     (if (case include of None \<Rightarrow> False | Some inc \<Rightarrow> inc idString) then False
      else
        (let result = False;
             result = (case exclude of
                         None \<Rightarrow> result
                       | Some exc \<Rightarrow> if exc idString then True else result);
             result = (case include of
                         None \<Rightarrow> result
                       | Some inc \<Rightarrow> if \<not> inc idString then True else result)
         in result))"

section \<open>The log scanner (package \<open>waflog\<close>)\<close>

text \<open>
  The log file is read through a backward line scanner (a third-party library): it yields
  the lines of the file, newest first, without their line ends, and then reports the end of
  the file. The model takes the file as the list of these lines in file order
  (\<open>None\<close> when the file cannot be opened or positioned) and scans its reverse.
\<close>

text \<open>
  The errors a stage or a test can end with: the bad-test-input error, the retry-once
  error, the errors \<open>RunStage\<close> wraps when a marker is not found or the connection or
  the request fails, the error of \<open>NewCheck\<close>, and the end of the process on a
  malformed pattern.
\<close>

datatype error =
    errBadTestInput
  | errRetryOnce
  | errStartMarker
  | errConnect
  | errSend
  | errEndMarker
  | errNewCheck
  | fatalBadRegexp

record FTWLogLines =
  StartMarker :: string
  EndMarker :: string

text \<open>
  The loop of \<open>getMarkedLines\<close>: \<open>endFound\<close> and \<open>found\<close> are the loop's variables,
  the last argument is what the scanner has still to yield.
\<close>

fun markedLoop :: "FTWLogLines \<Rightarrow> bool \<Rightarrow> string list \<Rightarrow> string list \<Rightarrow> string list" where
  "markedLoop ll endFound found [] = found"
| "markedLoop ll endFound found (line # rest) =
     (let lineLower = bytes_ToLower line in
      if \<not> endFound \<and> lineLower = EndMarker ll then markedLoop ll True found rest
      else if endFound \<and> lineLower = StartMarker ll then found
      else markedLoop ll endFound (found @ [line]) rest)"

definition getMarkedLines :: "string list option \<Rightarrow> FTWLogLines \<Rightarrow> string list" where
  "getMarkedLines logFile ll =
     (case logFile of
        None \<Rightarrow> []
      | Some lines \<Rightarrow> markedLoop ll False [] (rev lines))"

text \<open>
  \<open>regexp.Match pattern line\<close> compiles the pattern and matches the line; the regular
  expression engine is a parameter \<open>rx\<close>, the compiler: \<open>None\<close> for a malformed pattern.
  A malformed pattern ends the process (\<open>log.Fatal\<close>): the result \<open>Inl fatalBadRegexp\<close>.
\<close>

type_synonym compiler = "string \<Rightarrow> regexp option"

fun containsLoop :: "compiler \<Rightarrow> string \<Rightarrow> string list \<Rightarrow> error + bool" where
  "containsLoop rx match [] = Inr False"
| "containsLoop rx match (line # lines) =
     (case rx match of
        None \<Rightarrow> Inl fatalBadRegexp
      | Some re \<Rightarrow> if re line then Inr True else containsLoop rx match lines)"

definition Contains :: "compiler \<Rightarrow> string list option \<Rightarrow> FTWLogLines \<Rightarrow> string \<Rightarrow> error + bool" where
  "Contains rx logFile ll match = containsLoop rx match (getMarkedLines logFile ll)"

text \<open>
  The loop of \<open>CheckLogForMarker\<close>. \<open>Inl\<close> is a \<open>return\<close> from inside the loop (the
  marker and the flag that the search was aborted), \<open>Inr\<close> is the \<open>break\<close> with the
  lowercased line that contains the header name.
\<close>

fun headerLoop :: "string \<Rightarrow> int \<Rightarrow> int \<Rightarrow> string list \<Rightarrow> (string option \<times> bool) + string" where
  "headerLoop crsHeaderBytes readLimit lineCounter [] =
     (if lineCounter > readLimit then Inl (None, True) else Inl (None, False))"
| "headerLoop crsHeaderBytes readLimit lineCounter (l # rest) =
     (if lineCounter > readLimit then Inl (None, True)
      else
        (let line = bytes_ToLower l in
         if bytes_Contains line crsHeaderBytes then Inr line
         else headerLoop crsHeaderBytes readLimit (lineCounter + 1) rest))"

definition CheckLogForMarker ::
  "string \<Rightarrow> string list option \<Rightarrow> string \<Rightarrow> int \<Rightarrow> string option \<times> bool" where
  "CheckLogForMarker LogMarkerHeaderName logFile stageID readLimit =
     (case logFile of
        None \<Rightarrow> (None, False)
      | Some lines \<Rightarrow>
          (case headerLoop (bytes_ToLower LogMarkerHeaderName) readLimit 0 (rev lines) of
             Inl r \<Rightarrow> r
           | Inr line \<Rightarrow>
               if bytes_Contains line stageID then (Some line, False) else (None, False)))"

section \<open>The expectation checker (package \<open>check\<close>)\<close>

datatype TestResult = Success | Failed | Skipped | Ignored | ForceFail | ForcePass

datatype RunMode = DefaultRunMode | CloudRunMode

text \<open>
  The expected output of a stage. \<open>Status = 0\<close> and an empty string are Go's zero values:
  the criterion is not specified. \<open>ExpectError\<close> and \<open>RetryOnce\<close> are pointers to booleans.
\<close>

record test_Output =
  Status :: int
  ResponseContains :: string
  LogContains :: string
  NoLogContains :: string
  ExpectError :: "bool option"
  RetryOnce :: "bool option"

text \<open>
  The three override rule sets are Go maps from a compiled pattern to a reason. They are
  only iterated to find out whether some key matches, so the iteration order does not
  matter and each is a list of pairs.
\<close>

record FTWConfiguration =
  LogMarkerHeaderName :: string
  MaxMarkerRetries :: int
  MaxMarkerLogLines :: int
  RunMode :: RunMode
  TestOverride_Ignore :: "(regexp \<times> string) list"
  TestOverride_ForcePass :: "(regexp \<times> string) list"
  TestOverride_ForceFail :: "(regexp \<times> string) list"

record FTWCheck =
  log :: FTWLogLines
  expected :: test_Output
  cfg :: FTWConfiguration

record Response =
  StatusCode :: int
  GetFullResponse :: string

definition NewCheck :: "FTWConfiguration \<Rightarrow> FTWCheck" where
  "NewCheck c =
     \<lparr> log = \<lparr> StartMarker = [], EndMarker = [] \<rparr>,
       expected = \<lparr> Status = 0, ResponseContains = [], LogContains = [], NoLogContains = [],
                    ExpectError = None, RetryOnce = None \<rparr>,
       cfg = c \<rparr>"

definition SetExpectTestOutput :: "FTWCheck \<Rightarrow> test_Output \<Rightarrow> FTWCheck" where
  "SetExpectTestOutput c t = c\<lparr> expected := t \<rparr>"

fun matchesAny :: "(regexp \<times> string) list \<Rightarrow> string \<Rightarrow> bool" where
  "matchesAny [] ident = False"
| "matchesAny ((re, reason) # rules) ident = (if re ident then True else matchesAny rules ident)"

definition ForcedIgnore :: "FTWCheck \<Rightarrow> string \<Rightarrow> bool" where
  "ForcedIgnore c ident = matchesAny (TestOverride_Ignore (cfg c)) ident"

definition ForcedPass :: "FTWCheck \<Rightarrow> string \<Rightarrow> bool" where
  "ForcedPass c ident = matchesAny (TestOverride_ForcePass (cfg c)) ident"

definition ForcedFail :: "FTWCheck \<Rightarrow> string \<Rightarrow> bool" where
  "ForcedFail c ident = matchesAny (TestOverride_ForceFail (cfg c)) ident"

definition CloudMode :: "FTWCheck \<Rightarrow> bool" where
  "CloudMode c = (RunMode (cfg c) = CloudRunMode)"

text \<open>A nil marker (the probe failed and the stage expects an error) is \<open>None\<close>.\<close>

definition SetStartMarker :: "FTWCheck \<Rightarrow> string option \<Rightarrow> FTWCheck" where
  "SetStartMarker c marker =
     c\<lparr> log := (log c)\<lparr> StartMarker :=
          (case marker of None \<Rightarrow> [] | Some m \<Rightarrow> bytes_ToLower m) \<rparr> \<rparr>"

definition SetEndMarker :: "FTWCheck \<Rightarrow> string option \<Rightarrow> FTWCheck" where
  "SetEndMarker c marker =
     c\<lparr> log := (log c)\<lparr> EndMarker :=
          (case marker of None \<Rightarrow> [] | Some m \<Rightarrow> bytes_ToLower m) \<rparr> \<rparr>"

text \<open>
  Modelled from the spec: \<open>AssertExpectError\<close> (\<open>check/error.go\<close> is missing). It returns
  whether the stage expects a connection or send error and, if so, whether the criterion
  succeeded: an error outcome is a success, a non-error outcome is not. A Go \<open>error\<close> value
  is its message, \<open>None\<close> for nil.
\<close>

definition AssertExpectError :: "FTWCheck \<Rightarrow> string option \<Rightarrow> bool \<times> bool" where
  "AssertExpectError c err =
     (let errorExpected = (case ExpectError (expected c) of None \<Rightarrow> False | Some b \<Rightarrow> b)
      in (errorExpected, errorExpected \<and> err \<noteq> None))"

text \<open>
  Modelled from the spec: \<open>AssertStatus\<close> (\<open>check/status.go\<close> is missing). The status code
  must be the expected one; with no status specified the criterion is satisfied.
\<close>

definition AssertStatus :: "FTWCheck \<Rightarrow> int \<Rightarrow> bool" where
  "AssertStatus c status = (Status (expected c) = 0 \<or> Status (expected c) = status)"

text \<open>
  Modelled from the spec: \<open>AssertResponseContains\<close> (\<open>check/response.go\<close> is missing). The
  full response text must contain the expected substring when one is specified.
\<close>

definition AssertResponseContains :: "FTWCheck \<Rightarrow> string \<Rightarrow> bool" where
  "AssertResponseContains c response =
     (ResponseContains (expected c) = [] \<or> bytes_Contains response (ResponseContains (expected c)))"

text \<open>
  Modelled from the spec: \<open>AssertLogs\<close> and its two parts (\<open>check/logs.go\<close> is missing).
  When a log-contains pattern is specified, the window must contain a line matching it; when
  a log-not-contains pattern is specified, no line of the window may match it. Both go
  through \<open>Contains\<close> of the scanner, in this order, and the checker runs them in cloud mode
  as in any other mode.
\<close>

definition assertLogContains :: "compiler \<Rightarrow> string list option \<Rightarrow> FTWCheck \<Rightarrow> error + bool" where
  "assertLogContains rx logFile c =
     (if LogContains (expected c) \<noteq> []
      then Contains rx logFile (log c) (LogContains (expected c))
      else Inr True)"

definition assertNoLogContains :: "compiler \<Rightarrow> string list option \<Rightarrow> FTWCheck \<Rightarrow> error + bool" where
  "assertNoLogContains rx logFile c =
     (if NoLogContains (expected c) \<noteq> []
      then (case Contains rx logFile (log c) (NoLogContains (expected c)) of
              Inl e \<Rightarrow> Inl e
            | Inr found \<Rightarrow> Inr (\<not> found))
      else Inr True)"

definition AssertLogs :: "compiler \<Rightarrow> string list option \<Rightarrow> FTWCheck \<Rightarrow> error + bool" where
  "AssertLogs rx logFile c =
     (case assertLogContains rx logFile c of
        Inl e \<Rightarrow> Inl e
      | Inr ok \<Rightarrow> if ok then assertNoLogContains rx logFile c else Inr False)"

section \<open>The runner (package \<open>runner\<close>)\<close>

definition overriddenTestResult :: "FTWCheck \<Rightarrow> string \<Rightarrow> TestResult" where
  "overriddenTestResult c ident =
     (if ForcedIgnore c ident then Ignored
      else if ForcedFail c ident then ForceFail
      else if ForcedPass c ident then ForcePass
      else Failed)"

text \<open>
  \<open>checkResult\<close>: \<open>logFile\<close> is the content of the log file when the check runs. The
  result is \<open>Inl fatalBadRegexp\<close> when the log check ends the process.
\<close>

definition checkResult ::
  "compiler \<Rightarrow> string list option \<Rightarrow> FTWCheck \<Rightarrow> Response option \<Rightarrow> string option
     \<Rightarrow> error + TestResult" where
  "checkResult rx logFile c response responseError =
     (let (expectedErr, succeeded) = AssertExpectError c responseError in
      if expectedErr then (if succeeded then Inr Success else Inr Failed)
      else if responseError \<noteq> None then Inr Failed
      else
        (case response of
           None \<Rightarrow> Inr Failed
         | Some r \<Rightarrow>
             if \<not> AssertStatus c (StatusCode r) then Inr Failed
             else if \<not> AssertResponseContains c (GetFullResponse r) then Inr Failed
             else
               (case AssertLogs rx logFile c of
                  Inl e \<Rightarrow> Inl e
                | Inr ok \<Rightarrow> if \<not> ok then Inr Failed else Inr Success)))"

text \<open>
  The input of a stage. \<open>GetDestAddr\<close>, \<open>GetPort\<close> and \<open>GetProtocol\<close> stand for what the
  getters of the input return; \<open>Data\<close> is a pointer to a string.
\<close>

record Destination =
  DestAddr :: string
  Port :: int
  Protocol :: string

record test_Input =
  GetDestAddr :: string
  GetPort :: int
  GetProtocol :: string
  Data :: "string option"
  EncodedRequest :: string
  RAWRequest :: string

record schema_Stage =
  Input :: test_Input
  Output :: test_Output

record schema_Test =
  IdString :: string
  Stages :: "schema_Stage list"

text \<open>
  Modelled from the spec: \<open>utils.IsNotEmpty\<close> (package \<open>utils\<close> is missing). A pointer to
  a string supplies data when it is not nil and the string is not empty.
\<close>

definition IsNotEmpty :: "string option \<Rightarrow> bool" where
  "IsNotEmpty data = (case data of None \<Rightarrow> False | Some d \<Rightarrow> d \<noteq> [])"

definition checkTestSanity :: "test_Input \<Rightarrow> bool" where
  "checkTestSanity testInput =
     ((IsNotEmpty (Data testInput) \<and> EncodedRequest testInput \<noteq> []) \<or>
      (IsNotEmpty (Data testInput) \<and> RAWRequest testInput \<noteq> []) \<or>
      (EncodedRequest testInput \<noteq> [] \<and> RAWRequest testInput \<noteq> []))"

text \<open>
  A request is either the marker probe of \<open>markAndFlush\<close> (the marker header's name and
  its value, the stage ID) or the request that \<open>getRequestFromTest\<close> builds from the
  input of the stage.
\<close>

datatype Request = MarkerRequest string string | TestRequest test_Input

definition getRequestFromTest :: "test_Input \<Rightarrow> Request" where
  "getRequestFromTest testInput = TestRequest testInput"

text \<open>
  What the runner calls outside of this repository's sources is a parameter: the HTTP
  client (package \<open>ftwhttp\<close>), the UUID generator, the regular expression compiler, the
  log file and the override and statistics helpers. \<open>'w\<close> is the state of the world
  (the target, the firewall and its log file); every call returns the next state. A Go
  \<open>error\<close> is its message, \<open>None\<close> for nil.
\<close>

record 'w Env =
  regexp_Compile :: compiler
  uuid_NewString :: "'w \<Rightarrow> string \<times> 'w"
  NewConnection :: "Destination \<Rightarrow> 'w \<Rightarrow> string option \<times> 'w"
  NewOrReusedConnection :: "Destination \<Rightarrow> 'w \<Rightarrow> string option \<times> 'w"
  Do :: "Request \<Rightarrow> 'w \<Rightarrow> (Response option \<times> string option) \<times> 'w"
  LogFile :: "'w \<Rightarrow> string list option"
  NewFTWLogLines :: "'w \<Rightarrow> string option"
  ApplyInputOverrides :: "FTWConfiguration \<Rightarrow> test_Input \<Rightarrow> test_Input"
  ApplyPlatformOverrides :: "FTWConfiguration \<Rightarrow> schema_Test \<Rightarrow> schema_Test"
  TotalFailed :: "(TestResult \<times> string) list \<Rightarrow> nat"

text \<open>
  The calls made so far are recorded in the run context, in order: \<open>CallNewString\<close> is
  the draw of a stage ID at the start of \<open>RunStage\<close>, the three others are the
  invocations of the connection layer.
\<close>

datatype Call =
    CallNewString
  | CallNewConnection Destination
  | CallNewOrReusedConnection Destination
  | CallDo Request

record 'w TestRunContext =
  Config :: FTWConfiguration
  Include :: "regexp option"
  Exclude :: "regexp option"
  FailFast :: bool
  Stats :: "(TestResult \<times> string) list"
  Result :: TestResult
  world :: 'w
  calls :: "Call list"

definition doNewString :: "'w Env \<Rightarrow> 'w TestRunContext \<Rightarrow> string \<times> 'w TestRunContext" where
  "doNewString env ctx =
     (let (s, w) = uuid_NewString env (world ctx)
      in (s, ctx\<lparr> world := w, calls := calls ctx @ [CallNewString] \<rparr>))"

definition doNewConnection ::
  "'w Env \<Rightarrow> Destination \<Rightarrow> 'w TestRunContext \<Rightarrow> string option \<times> 'w TestRunContext" where
  "doNewConnection env dest ctx =
     (let (err, w) = NewConnection env dest (world ctx)
      in (err, ctx\<lparr> world := w, calls := calls ctx @ [CallNewConnection dest] \<rparr>))"

definition doNewOrReusedConnection ::
  "'w Env \<Rightarrow> Destination \<Rightarrow> 'w TestRunContext \<Rightarrow> string option \<times> 'w TestRunContext" where
  "doNewOrReusedConnection env dest ctx =
     (let (err, w) = NewOrReusedConnection env dest (world ctx)
      in (err, ctx\<lparr> world := w, calls := calls ctx @ [CallNewOrReusedConnection dest] \<rparr>))"

definition doDo ::
  "'w Env \<Rightarrow> Request \<Rightarrow> 'w TestRunContext
     \<Rightarrow> (Response option \<times> string option) \<times> 'w TestRunContext" where
  "doDo env req ctx =
     (let (r, w) = Do env req (world ctx)
      in (r, ctx\<lparr> world := w, calls := calls ctx @ [CallDo req] \<rparr>))"

text \<open>
  \<open>markAndFlush\<close>: the loop counts \<open>i\<close> down from \<open>MaxMarkerRetries\<close>. The result is
  the marker, \<open>None\<close> when the function returns an error (its marker is nil then). The
  search of the log returns the marker and the flag of an aborted search; the runner
  looks at the marker only.
\<close>

fun markLoop ::
  "'w Env \<Rightarrow> Destination \<Rightarrow> string \<Rightarrow> nat \<Rightarrow> 'w TestRunContext
     \<Rightarrow> string option \<times> 'w TestRunContext" where
  "markLoop env dest stageID 0 ctx = (None, ctx)"
| "markLoop env dest stageID (Suc i) ctx =
     (case doNewOrReusedConnection env dest ctx of
        (Some e, ctx1) \<Rightarrow> (None, ctx1)
      | (None, ctx1) \<Rightarrow>
          (case doDo env (MarkerRequest (LogMarkerHeaderName (Config ctx1)) stageID) ctx1 of
             ((r, Some e), ctx2) \<Rightarrow> (None, ctx2)
           | ((r, None), ctx2) \<Rightarrow>
               (case fst (CheckLogForMarker (LogMarkerHeaderName (Config ctx2))
                            (LogFile env (world ctx2)) stageID
                            (MaxMarkerLogLines (Config ctx2))) of
                  Some marker \<Rightarrow> (Some marker, ctx2)
                | None \<Rightarrow> markLoop env dest stageID i ctx2)))"

definition markAndFlush ::
  "'w Env \<Rightarrow> 'w TestRunContext \<Rightarrow> Destination \<Rightarrow> string
     \<Rightarrow> string option \<times> 'w TestRunContext" where
  "markAndFlush env runContext dest stageID =
     markLoop env dest stageID (nat (MaxMarkerRetries (Config runContext))) runContext"

definition notRunningInCloudMode :: "FTWCheck \<Rightarrow> bool" where
  "notRunningInCloudMode c = (\<not> CloudMode c)"

text \<open>
  \<open>RunStage\<close> in four parts, in the order of the source: setting the start marker, the
  request itself, setting the end marker, and the check of the result. Each part returns
  the error it ends the stage with, if any. Timing and printing are left out.
\<close>

definition stageStartMarker ::
  "'w Env \<Rightarrow> 'w TestRunContext \<Rightarrow> FTWCheck \<Rightarrow> Destination \<Rightarrow> string \<Rightarrow> bool
     \<Rightarrow> error option \<times> 'w TestRunContext \<times> FTWCheck" where
  "stageStartMarker env ctx ftwCheck dest stageID expectErr =
     (if notRunningInCloudMode ftwCheck
      then
        (let (startMarker, ctx1) = markAndFlush env ctx dest stageID in
         if startMarker = None \<and> \<not> expectErr then (Some errStartMarker, ctx1, ftwCheck)
         else (None, ctx1, SetStartMarker ftwCheck startMarker))
      else (None, ctx, ftwCheck))"

definition stageRequest ::
  "'w Env \<Rightarrow> 'w TestRunContext \<Rightarrow> Destination \<Rightarrow> test_Input \<Rightarrow> bool
     \<Rightarrow> error option \<times> 'w TestRunContext \<times> Response option \<times> string option" where
  "stageRequest env ctx dest testInput expectErr =
     (let req = getRequestFromTest testInput;
          (err, ctx1) = doNewConnection env dest ctx in
      if err \<noteq> None \<and> \<not> expectErr then (Some errConnect, ctx1, None, None)
      else
        (let ((response, responseErr), ctx2) = doDo env req ctx1 in
         if responseErr \<noteq> None \<and> \<not> expectErr then (Some errSend, ctx2, response, responseErr)
         else (None, ctx2, response, responseErr)))"

definition stageEndMarker ::
  "'w Env \<Rightarrow> 'w TestRunContext \<Rightarrow> FTWCheck \<Rightarrow> Destination \<Rightarrow> string \<Rightarrow> bool
     \<Rightarrow> error option \<times> 'w TestRunContext \<times> FTWCheck" where
  "stageEndMarker env ctx ftwCheck dest stageID expectErr =
     (if notRunningInCloudMode ftwCheck
      then
        (let (endMarker, ctx1) = markAndFlush env ctx dest stageID in
         if endMarker = None \<and> \<not> expectErr then (Some errEndMarker, ctx1, ftwCheck)
         else (None, ctx1, SetEndMarker ftwCheck endMarker))
      else (None, ctx, ftwCheck))"

definition stageCheck ::
  "'w Env \<Rightarrow> 'w TestRunContext \<Rightarrow> FTWCheck \<Rightarrow> test_Output \<Rightarrow> Response option
     \<Rightarrow> string option \<Rightarrow> error option \<times> 'w TestRunContext \<times> FTWCheck" where
  "stageCheck env ctx ftwCheck expectedOutput response responseErr =
     (let c = SetExpectTestOutput ftwCheck expectedOutput in
      case checkResult (regexp_Compile env) (LogFile env (world ctx)) c response responseErr of
        Inl e \<Rightarrow> (Some e, ctx, c)
      | Inr testResult \<Rightarrow>
          if testResult = Failed \<and> RetryOnce expectedOutput = Some True
          then (Some errRetryOnce, ctx, c)
          else (None, ctx\<lparr> Result := testResult \<rparr>, c))"

definition RunStage ::
  "'w Env \<Rightarrow> 'w TestRunContext \<Rightarrow> FTWCheck \<Rightarrow> schema_Test \<Rightarrow> schema_Stage
     \<Rightarrow> error option \<times> 'w TestRunContext \<times> FTWCheck" where
  "RunStage env runContext ftwCheck testCase stage =
     (let (stageID, ctx) = doNewString env runContext;
          testInput = ApplyInputOverrides env (Config ctx) (Input stage);
          expectedOutput = Output stage;
          expectErr = (case ExpectError expectedOutput of None \<Rightarrow> False | Some b \<Rightarrow> b)
      in
      if checkTestSanity testInput then (Some errBadTestInput, ctx, ftwCheck)
      else
        (let overridden = overriddenTestResult ftwCheck (IdString testCase) in
         if overridden \<noteq> Failed
         then (None, ctx\<lparr> Stats := Stats ctx @ [(overridden, IdString testCase)] \<rparr>, ftwCheck)
         else
           (let dest = \<lparr> DestAddr = GetDestAddr testInput, Port = GetPort testInput,
                         Protocol = GetProtocol testInput \<rparr> in
            case stageStartMarker env ctx ftwCheck dest stageID expectErr of
              (Some e, ctx1, c1) \<Rightarrow> (Some e, ctx1, c1)
            | (None, ctx1, c1) \<Rightarrow>
                (case stageRequest env ctx1 dest testInput expectErr of
                   (Some e, ctx2, response, responseErr) \<Rightarrow> (Some e, ctx2, c1)
                 | (None, ctx2, response, responseErr) \<Rightarrow>
                     (case stageEndMarker env ctx2 c1 dest stageID expectErr of
                        (Some e, ctx3, c2) \<Rightarrow> (Some e, ctx3, c2)
                      | (None, ctx3, c2) \<Rightarrow>
                          stageCheck env ctx3 c2 expectedOutput response responseErr)))))"

text \<open>
  \<open>RunTest\<close>: the loop over the stages of a test case, with the single retry, and the
  loop over the test cases of a file.
\<close>

fun runStages ::
  "'w Env \<Rightarrow> 'w TestRunContext \<Rightarrow> schema_Test \<Rightarrow> schema_Stage list
     \<Rightarrow> error option \<times> 'w TestRunContext" where
  "runStages env ctx testCase [] = (None, ctx)"
| "runStages env ctx testCase (stage # stages) =
     (case NewFTWLogLines env (world ctx) of
        Some e \<Rightarrow> (Some errNewCheck, ctx)
      | None \<Rightarrow>
          (case RunStage env ctx (NewCheck (Config ctx)) testCase stage of
             (None, ctx1, c1) \<Rightarrow> runStages env ctx1 testCase stages
           | (Some err, ctx1, c1) \<Rightarrow>
               if err = errRetryOnce
               then
                 (case RunStage env ctx1 c1 testCase stage of
                    (None, ctx2, c2) \<Rightarrow> runStages env ctx2 testCase stages
                  | (Some err2, ctx2, c2) \<Rightarrow> (Some err2, ctx2))
               else (Some err, ctx1)))"

fun RunTest ::
  "'w Env \<Rightarrow> 'w TestRunContext \<Rightarrow> schema_Test list \<Rightarrow> error option \<times> 'w TestRunContext" where
  "RunTest env runContext [] = (None, runContext)"
| "RunTest env runContext (testCase # tests) =
     (if needToSkipTest (Include runContext) (Exclude runContext) (IdString testCase)
      then RunTest env
             (runContext\<lparr> Stats := Stats runContext @ [(Skipped, IdString testCase)] \<rparr>) tests
      else
        (let tc = ApplyPlatformOverrides env (Config runContext) testCase in
         case runStages env runContext tc (Stages tc) of
           (Some err, ctx1) \<Rightarrow> (Some err, ctx1)
         | (None, ctx1) \<Rightarrow>
             (let ctx2 = ctx1\<lparr> Stats := Stats ctx1 @ [(Result ctx1, IdString tc)] \<rparr> in
              if FailFast ctx2 \<and> TotalFailed env (Stats ctx2) > 0 then (None, ctx2)
              else RunTest env ctx2 tests)))"

section \<open>Observations on a run\<close>

text \<open>
  The number of request sources an input supplies: inline data, a pre-encoded request, a
  raw request.
\<close>

definition requestSources :: "test_Input \<Rightarrow> nat" where
  "requestSources i =
     (if IsNotEmpty (Data i) then 1 else 0) + (if EncodedRequest i \<noteq> [] then 1 else 0) +
     (if RAWRequest i \<noteq> [] then 1 else 0)"

text \<open>
  \<open>RunStage\<close> draws its stage ID first and once, so the number of \<open>CallNewString\<close>
  entries is the number of times \<open>RunStage\<close> was entered; the other entries are the
  invocations of the connection layer.
\<close>

fun isNewString :: "Call \<Rightarrow> bool" where
  "isNewString CallNewString = True"
| "isNewString c = False"

definition stageRuns :: "'w TestRunContext \<Rightarrow> nat" where
  "stageRuns ctx = length (filter isNewString (calls ctx))"

definition connectionCalls :: "'w TestRunContext \<Rightarrow> Call list" where
  "connectionCalls ctx = filter (\<lambda>c. \<not> isNewString c) (calls ctx)"

text \<open>
  The verdict of a run of \<open>RunStage\<close>: the value of \<open>testResult\<close>, what \<open>checkResult\<close>
  returns when the run reaches it; \<open>None\<close> when the run ends before (a rejected input, a
  forced verdict, an error of a marker or of the request) or the check ends the process.
  It follows \<open>RunStage\<close> step by step and stops where \<open>RunStage\<close> looks at the retry-once
  flag.
\<close>

definition stageVerdict ::
  "'w Env \<Rightarrow> 'w TestRunContext \<Rightarrow> FTWCheck \<Rightarrow> schema_Test \<Rightarrow> schema_Stage
     \<Rightarrow> TestResult option" where
  "stageVerdict env runContext ftwCheck testCase stage =
     (let (stageID, ctx) = doNewString env runContext;
          testInput = ApplyInputOverrides env (Config ctx) (Input stage);
          expectedOutput = Output stage;
          expectErr = (case ExpectError expectedOutput of None \<Rightarrow> False | Some b \<Rightarrow> b)
      in
      if checkTestSanity testInput then None
      else if overriddenTestResult ftwCheck (IdString testCase) \<noteq> Failed then None
      else
        (let dest = \<lparr> DestAddr = GetDestAddr testInput, Port = GetPort testInput,
                      Protocol = GetProtocol testInput \<rparr> in
         case stageStartMarker env ctx ftwCheck dest stageID expectErr of
           (Some e, ctx1, c1) \<Rightarrow> None
         | (None, ctx1, c1) \<Rightarrow>
             (case stageRequest env ctx1 dest testInput expectErr of
                (Some e, ctx2, response, responseErr) \<Rightarrow> None
              | (None, ctx2, response, responseErr) \<Rightarrow>
                  (case stageEndMarker env ctx2 c1 dest stageID expectErr of
                     (Some e, ctx3, c2) \<Rightarrow> None
                   | (None, ctx3, c2) \<Rightarrow>
                       (case checkResult (regexp_Compile env) (LogFile env (world ctx3))
                               (SetExpectTestOutput c2 expectedOutput) response responseErr of
                          Inl e \<Rightarrow> None
                        | Inr testResult \<Rightarrow> Some testResult)))))"

text \<open>The verdict of a matching override: ignore before force-fail before force-pass.\<close>

definition forcedVerdict :: "FTWCheck \<Rightarrow> string \<Rightarrow> TestResult" where
  "forcedVerdict c ident =
     (if ForcedIgnore c ident then Ignored
      else if ForcedFail c ident then ForceFail
      else ForcePass)"

section \<open>Criteria and marker lines\<close>




text \<open>
  A line contains the marker header's name, or the stage ID, without regard to case. The
  nearest header line among the newest \<open>n\<close> lines of the file is the newest of them that
  contains the header's name.
\<close>

definition lineHasHeader :: "string \<Rightarrow> string \<Rightarrow> bool" where
  "lineHasHeader headerName line = bytes_Contains (bytes_ToLower line) (bytes_ToLower headerName)"

definition lineHasStageID :: "string \<Rightarrow> string \<Rightarrow> bool" where
  "lineHasStageID stageID line = bytes_Contains (bytes_ToLower line) (bytes_ToLower stageID)"

definition nearestHeaderLine :: "string \<Rightarrow> nat \<Rightarrow> string list \<Rightarrow> string option" where
  "nearestHeaderLine headerName n lines = find (lineHasHeader headerName) (take n (rev lines))"

section \<open>An example environment\<close>

text \<open>
  A small world to run the definitions in: the state is the log file. The firewall logs
  the marker header of a probe and one rule line for every other request; the target
  answers 200 to everything. The example compiler takes a pattern literally and rejects
  the pattern \<open>(\<close>.
\<close>

definition exampleCompile :: compiler where
  "exampleCompile pattern =
     (if pattern = ''('' then None else Some (\<lambda>line. bytes_Contains line pattern))"

definition exampleEnv :: "(string list) Env" where
  "exampleEnv =
     \<lparr> regexp_Compile = exampleCompile,
       uuid_NewString = (\<lambda>w. (''id1'', w)),
       NewConnection = (\<lambda>d w. (None, w)),
       NewOrReusedConnection = (\<lambda>d w. (None, w)),
       Do = (\<lambda>req w.
               case req of
                 MarkerRequest h v \<Rightarrow>
                   ((Some \<lparr> StatusCode = 200, GetFullResponse = [] \<rparr>, None), w @ [h @ '' '' @ v])
               | TestRequest i \<Rightarrow>
                   ((Some \<lparr> StatusCode = 200, GetFullResponse = ''ok'' \<rparr>, None),
                    w @ [''id 911100''])),
       LogFile = Some,
       NewFTWLogLines = (\<lambda>w. None),
       ApplyInputOverrides = (\<lambda>c i. i),
       ApplyPlatformOverrides = (\<lambda>c t. t),
       TotalFailed = (\<lambda>stats. length (filter (\<lambda>(r, i). r = Failed \<or> r = ForceFail) stats)) \<rparr>"

definition exampleConfig :: FTWConfiguration where
  "exampleConfig =
     \<lparr> LogMarkerHeaderName = ''X-M'', MaxMarkerRetries = 2, MaxMarkerLogLines = 5,
       RunMode = DefaultRunMode, TestOverride_Ignore = [], TestOverride_ForcePass = [],
       TestOverride_ForceFail = [] \<rparr>"

definition ignoringConfig :: FTWConfiguration where
  "ignoringConfig =
     exampleConfig\<lparr> TestOverride_Ignore := [(\<lambda>s. bytes_Contains s ''920100'', ''known'')] \<rparr>"

definition exampleContext :: "(string list) TestRunContext" where
  "exampleContext =
     \<lparr> Config = exampleConfig, Include = None, Exclude = None, FailFast = False, Stats = [],
       Result = Success, world = [], calls = [] \<rparr>"

definition ignoringContext :: "(string list) TestRunContext" where
  "ignoringContext = exampleContext\<lparr> Config := ignoringConfig \<rparr>"

definition exampleInput :: test_Input where
  "exampleInput =
     \<lparr> GetDestAddr = ''localhost'', GetPort = 80, GetProtocol = ''http'', Data = None,
       EncodedRequest = [], RAWRequest = [] \<rparr>"

definition ambiguousInput :: test_Input where
  "ambiguousInput = exampleInput\<lparr> Data := Some ''a=b'', EncodedRequest := ''R0VU'' \<rparr>"

definition exampleOutput :: test_Output where
  "exampleOutput =
     \<lparr> Status = 403, ResponseContains = [], LogContains = [], NoLogContains = [],
       ExpectError = None, RetryOnce = Some True \<rparr>"

definition exampleStage :: schema_Stage where
  "exampleStage = \<lparr> Input = exampleInput, Output = exampleOutput \<rparr>"

definition ambiguousStage :: schema_Stage where
  "ambiguousStage = \<lparr> Input = ambiguousInput, Output = exampleOutput \<rparr>"

definition exampleTest :: schema_Test where
  "exampleTest = \<lparr> IdString = ''920100-1'', Stages = [exampleStage] \<rparr>"





definition okResponse :: Response where
  "okResponse = \<lparr> StatusCode = 200, GetFullResponse = ''ok'' \<rparr>"

definition errorExpectedCheck :: FTWCheck where
  "errorExpectedCheck =
     SetExpectTestOutput (NewCheck exampleConfig)
       \<lparr> Status = 0, ResponseContains = [], LogContains = [], NoLogContains = [],
         ExpectError = Some True, RetryOnce = None \<rparr>"

definition malformedCheck :: FTWCheck where
  "malformedCheck =
     SetExpectTestOutput (NewCheck exampleConfig)
       \<lparr> Status = 0, ResponseContains = [], LogContains = [], NoLogContains = ''('',
         ExpectError = None, RetryOnce = None \<rparr>"



section \<open>Inclusion wins over exclusion\<close>



section \<open>Errors a stage can end with\<close>

lemma checkTestSanity_iff: "checkTestSanity i \<longleftrightarrow> 1 < requestSources i"
  by (auto simp: checkTestSanity_def requestSources_def)

lemma containsLoop_Inl: "containsLoop rx m ls = Inl e \<Longrightarrow> e = fatalBadRegexp"
  by (induction ls) (auto split: option.splits if_splits)

lemma checkResult_Inl: "checkResult rx f c r e = Inl x \<Longrightarrow> x = fatalBadRegexp"
  by (auto simp: checkResult_def AssertLogs_def assertLogContains_def assertNoLogContains_def
      Contains_def AssertExpectError_def Let_def
      split: if_splits option.splits sum.splits dest: containsLoop_Inl)

lemma stageStartMarker_err:
  "fst (stageStartMarker env ctx c d s x) = Some e \<Longrightarrow> e = errStartMarker"
  by (auto simp: stageStartMarker_def Let_def split: if_splits prod.splits)

lemma stageEndMarker_err:
  "fst (stageEndMarker env ctx c d s x) = Some e \<Longrightarrow> e = errEndMarker"
  by (auto simp: stageEndMarker_def Let_def split: if_splits prod.splits)

lemma stageRequest_err:
  "fst (stageRequest env ctx d i x) = Some e \<Longrightarrow> e = errConnect \<or> e = errSend"
  by (auto simp: stageRequest_def Let_def split: if_splits prod.splits)

lemma stageCheck_err:
  "fst (stageCheck env ctx c out r re) = Some e \<Longrightarrow> e = errRetryOnce \<or> e = fatalBadRegexp"
  by (auto simp: stageCheck_def Let_def split: if_splits prod.splits sum.splits
      dest: checkResult_Inl)

lemma RunStage_bad_iff:
  "fst (RunStage env runContext ftwCheck testCase stage) = Some errBadTestInput \<longleftrightarrow>
   checkTestSanity (ApplyInputOverrides env (Config runContext) (Input stage))"
proof (cases "checkTestSanity (ApplyInputOverrides env (Config runContext) (Input stage))")
  case True
  then show ?thesis
    by (simp add: RunStage_def Let_def doNewString_def split_beta)
next
  case False
  have "fst (RunStage env runContext ftwCheck testCase stage) \<noteq> Some errBadTestInput"
    using False
    by (auto simp add: RunStage_def Let_def doNewString_def split_beta split: option.splits
        dest: stageStartMarker_err stageEndMarker_err stageRequest_err stageCheck_err)
  with False show ?thesis by simp
qed

section \<open>The sanity check of the stage input\<close>

text \<open>
  C8. \<open>RunStage\<close> checks the input of the stage as it stands after the configured input
  overrides are applied. It ends with the bad-test-input error if and only if that input
  supplies more than one of inline data, pre-encoded request and raw request; an input
  with at most one of them never meets this error. When the stage is rejected, the only
  call made is the draw of the stage ID: no connection is opened and nothing is sent, no
  result is recorded and the checker is left as it was.
\<close>

theorem RunStage_sanity_check:
  "(fst (RunStage env runContext ftwCheck testCase stage) = Some errBadTestInput \<longleftrightarrow>
      1 < requestSources (ApplyInputOverrides env (Config runContext) (Input stage))) \<and>
   (1 < requestSources (ApplyInputOverrides env (Config runContext) (Input stage)) \<longrightarrow>
      calls (fst (snd (RunStage env runContext ftwCheck testCase stage))) =
        calls runContext @ [CallNewString] \<and>
      Stats (fst (snd (RunStage env runContext ftwCheck testCase stage))) = Stats runContext \<and>
      snd (snd (RunStage env runContext ftwCheck testCase stage)) = ftwCheck)"
proof -
  have "1 < requestSources (ApplyInputOverrides env (Config runContext) (Input stage)) \<Longrightarrow>
      calls (fst (snd (RunStage env runContext ftwCheck testCase stage))) =
        calls runContext @ [CallNewString] \<and>
      Stats (fst (snd (RunStage env runContext ftwCheck testCase stage))) = Stats runContext \<and>
      snd (snd (RunStage env runContext ftwCheck testCase stage)) = ftwCheck"
  proof -
    assume "1 < requestSources (ApplyInputOverrides env (Config runContext) (Input stage))"
    then have "checkTestSanity (ApplyInputOverrides env (Config runContext) (Input stage))"
      by (simp add: checkTestSanity_iff)
    then show ?thesis
      by (simp add: RunStage_def Let_def doNewString_def split_beta)
  qed
  then show ?thesis
    by (simp add: RunStage_bad_iff checkTestSanity_iff)
qed

theorem RunStage_sanity_check_witness:
  "fst (RunStage exampleEnv exampleContext (NewCheck exampleConfig) exampleTest ambiguousStage)
     = Some errBadTestInput \<and>
   requestSources (ApplyInputOverrides exampleEnv (Config exampleContext) (Input ambiguousStage))
     = 2 \<and>
   calls (fst (snd (RunStage exampleEnv exampleContext (NewCheck exampleConfig) exampleTest
                      ambiguousStage))) = calls exampleContext @ [CallNewString] \<and>
   fst (RunStage exampleEnv exampleContext (NewCheck exampleConfig) exampleTest exampleStage)
     \<noteq> Some errBadTestInput \<and>
   requestSources (ApplyInputOverrides exampleEnv (Config exampleContext) (Input exampleStage))
     = 0"
proof -
  have two:
    "requestSources (ApplyInputOverrides exampleEnv (Config exampleContext) (Input ambiguousStage))
       = 2"
    by code_simp
  have none:
    "requestSources (ApplyInputOverrides exampleEnv (Config exampleContext) (Input exampleStage))
       = 0"
    by code_simp
  show ?thesis
    using two none
      RunStage_sanity_check [of exampleEnv exampleContext "NewCheck exampleConfig" exampleTest
        ambiguousStage]
      RunStage_sanity_check [of exampleEnv exampleContext "NewCheck exampleConfig" exampleTest
        exampleStage]
    by simp
qed

section \<open>Forced verdicts\<close>

text \<open>
  C3, as the code has it. \<open>RunStage\<close> checks the sanity of the input first and looks at
  the override rules after it. For every stage whose input passes the sanity check and
  whose test identifier matches an ignore, force-fail or force-pass rule, the stage ends
  without an error, the forced verdict (ignore before force-fail before force-pass) is
  the one result added to the statistics, the only call made is the draw of the stage ID
  (no invocation of the connection layer), and the checker keeps its markers: nothing is
  marked. This holds whatever the expectations of the stage are.
\<close>

theorem RunStage_forced_override:
  assumes "\<not> checkTestSanity (ApplyInputOverrides env (Config runContext) (Input stage))"
      and "ForcedIgnore ftwCheck (IdString testCase) \<or> ForcedFail ftwCheck (IdString testCase)
           \<or> ForcedPass ftwCheck (IdString testCase)"
  shows "fst (RunStage env runContext ftwCheck testCase stage) = None \<and>
         Stats (fst (snd (RunStage env runContext ftwCheck testCase stage))) =
           Stats runContext @ [(forcedVerdict ftwCheck (IdString testCase), IdString testCase)] \<and>
         calls (fst (snd (RunStage env runContext ftwCheck testCase stage))) =
           calls runContext @ [CallNewString] \<and>
         connectionCalls (fst (snd (RunStage env runContext ftwCheck testCase stage))) =
           connectionCalls runContext \<and>
         snd (snd (RunStage env runContext ftwCheck testCase stage)) = ftwCheck"
proof -
  from assms(2) have ov: "overriddenTestResult ftwCheck (IdString testCase) \<noteq> Failed"
    and fv: "overriddenTestResult ftwCheck (IdString testCase)
               = forcedVerdict ftwCheck (IdString testCase)"
    by (auto simp: overriddenTestResult_def forcedVerdict_def)
  show ?thesis
    using assms(1) ov fv
    by (simp add: RunStage_def Let_def doNewString_def split_beta connectionCalls_def)
qed

theorem RunStage_forced_override_witness:
  "\<not> checkTestSanity (ApplyInputOverrides exampleEnv (Config ignoringContext) (Input exampleStage)) \<and>
   ForcedIgnore (NewCheck ignoringConfig) (IdString exampleTest) \<and>
   fst (RunStage exampleEnv ignoringContext (NewCheck ignoringConfig) exampleTest exampleStage)
     = None \<and>
   Stats (fst (snd (RunStage exampleEnv ignoringContext (NewCheck ignoringConfig) exampleTest
                      exampleStage))) = [(Ignored, ''920100-1'')] \<and>
   connectionCalls (fst (snd (RunStage exampleEnv ignoringContext (NewCheck ignoringConfig)
                                exampleTest exampleStage))) = []"
proof -
  have sane:
    "\<not> checkTestSanity (ApplyInputOverrides exampleEnv (Config ignoringContext) (Input exampleStage))"
    by code_simp
  have ign: "ForcedIgnore (NewCheck ignoringConfig) (IdString exampleTest)"
    by code_simp
  have i: "IdString exampleTest = ''920100-1''" by (simp add: exampleTest_def)
  have v: "forcedVerdict (NewCheck ignoringConfig) ''920100-1'' = Ignored"
    using ign by (simp add: forcedVerdict_def i)
  have s: "Stats ignoringContext = []" by (simp add: ignoringContext_def exampleContext_def)
  have c: "connectionCalls ignoringContext = []"
    by (simp add: connectionCalls_def ignoringContext_def exampleContext_def)
  show ?thesis
    using sane ign
      RunStage_forced_override [of exampleEnv ignoringContext exampleStage
        "NewCheck ignoringConfig" exampleTest]
    by (simp add: v i s c)
qed

text \<open>
  The claim as it was written fails: a stage whose identifier matches an ignore rule and
  whose input supplies two request sources ends with the bad-test-input error, and no
  Ignored verdict is recorded.
\<close>

theorem RunStage_override_after_sanity_counterexample:
  "ForcedIgnore (NewCheck ignoringConfig) (IdString exampleTest) \<and>
   fst (RunStage exampleEnv ignoringContext (NewCheck ignoringConfig) exampleTest ambiguousStage)
     = Some errBadTestInput \<and>
   Stats (fst (snd (RunStage exampleEnv ignoringContext (NewCheck ignoringConfig) exampleTest
                      ambiguousStage))) = []"
  by code_simp

section \<open>Retrying a stage once\<close>

lemma stageRuns_doNewOrReusedConnection:
  "stageRuns (snd (doNewOrReusedConnection env dest ctx)) = stageRuns ctx"
  by (simp add: doNewOrReusedConnection_def stageRuns_def split_beta)

lemma stageRuns_doNewConnection:
  "stageRuns (snd (doNewConnection env dest ctx)) = stageRuns ctx"
  by (simp add: doNewConnection_def stageRuns_def split_beta)

lemma stageRuns_doDo:
  "stageRuns (snd (doDo env req ctx)) = stageRuns ctx"
  by (simp add: doDo_def stageRuns_def split_beta)

lemma stageRuns_markLoop:
  "stageRuns (snd (markLoop env dest stageID i ctx)) = stageRuns ctx"
proof (induction i arbitrary: ctx)
  case 0
  show ?case by simp
next
  case (Suc i)
  obtain e ctx1 where c1: "doNewOrReusedConnection env dest ctx = (e, ctx1)"
    by (cases "doNewOrReusedConnection env dest ctx")
  then have r1: "stageRuns ctx1 = stageRuns ctx"
    using stageRuns_doNewOrReusedConnection [of env dest ctx] by simp
  obtain r re ctx2 where c2:
    "doDo env (MarkerRequest (LogMarkerHeaderName (Config ctx1)) stageID) ctx1 = ((r, re), ctx2)"
    by (cases "doDo env (MarkerRequest (LogMarkerHeaderName (Config ctx1)) stageID) ctx1") auto
  then have r2: "stageRuns ctx2 = stageRuns ctx1"
    using stageRuns_doDo [of env "MarkerRequest (LogMarkerHeaderName (Config ctx1)) stageID" ctx1] by simp
  show ?case
    using c1 c2 r1 r2 Suc.IH [of ctx2]
    by (simp split: option.splits)
qed

lemma stageRuns_stageStartMarker:
  "stageRuns (fst (snd (stageStartMarker env ctx c dest stageID x))) = stageRuns ctx"
  by (simp add: stageStartMarker_def markAndFlush_def split_beta stageRuns_markLoop)

lemma stageRuns_stageEndMarker:
  "stageRuns (fst (snd (stageEndMarker env ctx c dest stageID x))) = stageRuns ctx"
  by (simp add: stageEndMarker_def markAndFlush_def split_beta stageRuns_markLoop)

lemma stageRuns_stageRequest:
  "stageRuns (fst (snd (stageRequest env ctx dest i x))) = stageRuns ctx"
  by (simp add: stageRequest_def Let_def split_beta stageRuns_doDo stageRuns_doNewConnection)

lemma stageRuns_stageCheck:
  "stageRuns (fst (snd (stageCheck env ctx c out r re))) = stageRuns ctx"
  by (simp add: stageCheck_def Let_def stageRuns_def split: sum.splits)

lemma stageRuns_doNewString:
  "stageRuns (snd (doNewString env ctx)) = stageRuns ctx + 1"
  by (simp add: doNewString_def stageRuns_def split_beta)

lemma stageRuns_RunStage:
  "stageRuns (fst (snd (RunStage env ctx c testCase stage))) = stageRuns ctx + 1"
proof -
  let ?ctx = "snd (doNewString env ctx)"
  have 0: "stageRuns ?ctx = stageRuns ctx + 1" by (rule stageRuns_doNewString)
  show ?thesis
    unfolding RunStage_def Let_def split_beta
    by (simp add: 0 stageRuns_stageStartMarker stageRuns_stageEndMarker stageRuns_stageRequest
        stageRuns_stageCheck stageRuns_def[of "_\<lparr>Stats := _\<rparr>"] stageRuns_def[of ?ctx, symmetric]
        split: option.splits)
qed


lemma kept_doNewString:
  "Stats (snd (doNewString env ctx)) = Stats ctx \<and> Result (snd (doNewString env ctx)) = Result ctx"
  by (simp add: doNewString_def split_beta)

lemma kept_doNewConnection:
  "Stats (snd (doNewConnection env d ctx)) = Stats ctx \<and>
   Result (snd (doNewConnection env d ctx)) = Result ctx"
  by (simp add: doNewConnection_def split_beta)

lemma kept_doNewOrReusedConnection:
  "Stats (snd (doNewOrReusedConnection env d ctx)) = Stats ctx \<and>
   Result (snd (doNewOrReusedConnection env d ctx)) = Result ctx"
  by (simp add: doNewOrReusedConnection_def split_beta)

lemma kept_doDo:
  "Stats (snd (doDo env req ctx)) = Stats ctx \<and> Result (snd (doDo env req ctx)) = Result ctx"
  by (simp add: doDo_def split_beta)

lemma kept_markLoop:
  "Stats (snd (markLoop env dest stageID i ctx)) = Stats ctx \<and>
   Result (snd (markLoop env dest stageID i ctx)) = Result ctx"
proof (induction i arbitrary: ctx)
  case 0
  show ?case by simp
next
  case (Suc i)
  obtain e ctx1 where c1: "doNewOrReusedConnection env dest ctx = (e, ctx1)"
    by (cases "doNewOrReusedConnection env dest ctx")
  then have k1: "Stats ctx1 = Stats ctx \<and> Result ctx1 = Result ctx"
    using kept_doNewOrReusedConnection [of env dest ctx] by simp
  obtain r re ctx2 where c2:
    "doDo env (MarkerRequest (LogMarkerHeaderName (Config ctx1)) stageID) ctx1 = ((r, re), ctx2)"
    by (cases "doDo env (MarkerRequest (LogMarkerHeaderName (Config ctx1)) stageID) ctx1") auto
  then have k2: "Stats ctx2 = Stats ctx1 \<and> Result ctx2 = Result ctx1"
    using kept_doDo [of env "MarkerRequest (LogMarkerHeaderName (Config ctx1)) stageID" ctx1]
    by simp
  show ?case
    using c1 c2 k1 k2 Suc.IH [of ctx2]
    by (simp split: option.splits)
qed

lemma kept_stageStartMarker:
  "Stats (fst (snd (stageStartMarker env ctx c dest stageID x))) = Stats ctx \<and>
   Result (fst (snd (stageStartMarker env ctx c dest stageID x))) = Result ctx"
  by (simp add: stageStartMarker_def markAndFlush_def split_beta kept_markLoop)

lemma kept_stageEndMarker:
  "Stats (fst (snd (stageEndMarker env ctx c dest stageID x))) = Stats ctx \<and>
   Result (fst (snd (stageEndMarker env ctx c dest stageID x))) = Result ctx"
  by (simp add: stageEndMarker_def markAndFlush_def split_beta kept_markLoop)

lemma kept_stageRequest:
  "Stats (fst (snd (stageRequest env ctx dest i x))) = Stats ctx \<and>
   Result (fst (snd (stageRequest env ctx dest i x))) = Result ctx"
  by (simp add: stageRequest_def Let_def split_beta kept_doDo kept_doNewConnection)

lemma kept_stageCheck:
  "fst (stageCheck env ctx c out r re) \<noteq> None \<Longrightarrow>
   Stats (fst (snd (stageCheck env ctx c out r re))) = Stats ctx \<and>
   Result (fst (snd (stageCheck env ctx c out r re))) = Result ctx"
  by (auto simp add: stageCheck_def Let_def split: sum.splits if_splits)

lemma RunStage_cases:
  obtains stageID ctx0 e1 ctx1 c1 e2 ctx2 response responseErr e3 ctx3 c3
  where "doNewString env ctx = (stageID, ctx0)"
    and "stageStartMarker env ctx0 c
           \<lparr> DestAddr = GetDestAddr (ApplyInputOverrides env (Config ctx0) (Input stage)),
             Port = GetPort (ApplyInputOverrides env (Config ctx0) (Input stage)),
             Protocol = GetProtocol (ApplyInputOverrides env (Config ctx0) (Input stage)) \<rparr>
           stageID (case ExpectError (Output stage) of None \<Rightarrow> False | Some b \<Rightarrow> b)
         = (e1, ctx1, c1)"
    and "stageRequest env ctx1
           \<lparr> DestAddr = GetDestAddr (ApplyInputOverrides env (Config ctx0) (Input stage)),
             Port = GetPort (ApplyInputOverrides env (Config ctx0) (Input stage)),
             Protocol = GetProtocol (ApplyInputOverrides env (Config ctx0) (Input stage)) \<rparr>
           (ApplyInputOverrides env (Config ctx0) (Input stage))
           (case ExpectError (Output stage) of None \<Rightarrow> False | Some b \<Rightarrow> b)
         = (e2, ctx2, response, responseErr)"
    and "stageEndMarker env ctx2 c1
           \<lparr> DestAddr = GetDestAddr (ApplyInputOverrides env (Config ctx0) (Input stage)),
             Port = GetPort (ApplyInputOverrides env (Config ctx0) (Input stage)),
             Protocol = GetProtocol (ApplyInputOverrides env (Config ctx0) (Input stage)) \<rparr>
           stageID (case ExpectError (Output stage) of None \<Rightarrow> False | Some b \<Rightarrow> b)
         = (e3, ctx3, c3)"
    and "e1 \<noteq> Some errRetryOnce" and "e2 \<noteq> Some errRetryOnce" and "e3 \<noteq> Some errRetryOnce"
    and "Stats ctx0 = Stats ctx \<and> Result ctx0 = Result ctx"
    and "Stats ctx1 = Stats ctx0 \<and> Result ctx1 = Result ctx0"
    and "Stats ctx2 = Stats ctx1 \<and> Result ctx2 = Result ctx1"
    and "Stats ctx3 = Stats ctx2 \<and> Result ctx3 = Result ctx2"
proof -
  obtain stageID ctx0 where ns: "doNewString env ctx = (stageID, ctx0)"
    by (cases "doNewString env ctx")
  let ?ti = "ApplyInputOverrides env (Config ctx0) (Input stage)"
  let ?dest = "\<lparr> DestAddr = GetDestAddr ?ti, Port = GetPort ?ti, Protocol = GetProtocol ?ti \<rparr>"
  let ?x = "case ExpectError (Output stage) of None \<Rightarrow> False | Some b \<Rightarrow> b"
  obtain e1 ctx1 c1 where p1: "stageStartMarker env ctx0 c ?dest stageID ?x = (e1, ctx1, c1)"
    by (cases "stageStartMarker env ctx0 c ?dest stageID ?x")
  obtain e2 ctx2 response responseErr where
    p2: "stageRequest env ctx1 ?dest ?ti ?x = (e2, ctx2, response, responseErr)"
    by (cases "stageRequest env ctx1 ?dest ?ti ?x")
  obtain e3 ctx3 c3 where p3: "stageEndMarker env ctx2 c1 ?dest stageID ?x = (e3, ctx3, c3)"
    by (cases "stageEndMarker env ctx2 c1 ?dest stageID ?x")
  have n1: "e1 \<noteq> Some errRetryOnce"
    using stageStartMarker_err [of env ctx0 c ?dest stageID ?x errRetryOnce] p1 by auto
  have n2: "e2 \<noteq> Some errRetryOnce"
    using stageRequest_err [of env ctx1 ?dest ?ti ?x errRetryOnce] p2 by auto
  have n3: "e3 \<noteq> Some errRetryOnce"
    using stageEndMarker_err [of env ctx2 c1 ?dest stageID ?x errRetryOnce] p3 by auto
  have k0: "Stats ctx0 = Stats ctx \<and> Result ctx0 = Result ctx"
    using kept_doNewString [of env ctx] ns by simp
  have k1: "Stats ctx1 = Stats ctx0 \<and> Result ctx1 = Result ctx0"
    using kept_stageStartMarker [of env ctx0 c ?dest stageID ?x] p1 by simp
  have k2: "Stats ctx2 = Stats ctx1 \<and> Result ctx2 = Result ctx1"
    using kept_stageRequest [of env ctx1 ?dest ?ti ?x] p2 by simp
  have k3: "Stats ctx3 = Stats ctx2 \<and> Result ctx3 = Result ctx2"
    using kept_stageEndMarker [of env ctx2 c1 ?dest stageID ?x] p3 by simp
  show ?thesis
    using that [OF ns p1 p2 p3 n1 n2 n3 k0 k1 k2 k3] .
qed

lemma RunStage_retry_iff:
  "fst (RunStage env ctx c testCase stage) = Some errRetryOnce \<longleftrightarrow>
   RetryOnce (Output stage) = Some True \<and> stageVerdict env ctx c testCase stage = Some Failed"
proof -
  obtain stageID ctx0 e1 ctx1 c1 e2 ctx2 response responseErr e3 ctx3 c3
    where ns: "doNewString env ctx = (stageID, ctx0)"
    and p1: "stageStartMarker env ctx0 c
           \<lparr> DestAddr = GetDestAddr (ApplyInputOverrides env (Config ctx0) (Input stage)),
             Port = GetPort (ApplyInputOverrides env (Config ctx0) (Input stage)),
             Protocol = GetProtocol (ApplyInputOverrides env (Config ctx0) (Input stage)) \<rparr>
           stageID (case ExpectError (Output stage) of None \<Rightarrow> False | Some b \<Rightarrow> b)
         = (e1, ctx1, c1)"
    and p2: "stageRequest env ctx1
           \<lparr> DestAddr = GetDestAddr (ApplyInputOverrides env (Config ctx0) (Input stage)),
             Port = GetPort (ApplyInputOverrides env (Config ctx0) (Input stage)),
             Protocol = GetProtocol (ApplyInputOverrides env (Config ctx0) (Input stage)) \<rparr>
           (ApplyInputOverrides env (Config ctx0) (Input stage))
           (case ExpectError (Output stage) of None \<Rightarrow> False | Some b \<Rightarrow> b)
         = (e2, ctx2, response, responseErr)"
    and p3: "stageEndMarker env ctx2 c1
           \<lparr> DestAddr = GetDestAddr (ApplyInputOverrides env (Config ctx0) (Input stage)),
             Port = GetPort (ApplyInputOverrides env (Config ctx0) (Input stage)),
             Protocol = GetProtocol (ApplyInputOverrides env (Config ctx0) (Input stage)) \<rparr>
           stageID (case ExpectError (Output stage) of None \<Rightarrow> False | Some b \<Rightarrow> b)
         = (e3, ctx3, c3)"
    and n: "e1 \<noteq> Some errRetryOnce" "e2 \<noteq> Some errRetryOnce" "e3 \<noteq> Some errRetryOnce"
    by (rule RunStage_cases)
  show ?thesis
    unfolding RunStage_def stageVerdict_def Let_def ns prod.case p1 p2 p3
    using n
    by (cases e1; cases e2; cases e3)
       (auto simp add: stageCheck_def Let_def split: sum.splits dest: checkResult_Inl)
qed

lemma RunStage_records_verdict:
  "stageVerdict env ctx c testCase stage = Some v \<Longrightarrow>
   \<not> (v = Failed \<and> RetryOnce (Output stage) = Some True) \<Longrightarrow>
   fst (RunStage env ctx c testCase stage) = None \<and>
   Result (fst (snd (RunStage env ctx c testCase stage))) = v"
proof -
  assume v: "stageVerdict env ctx c testCase stage = Some v"
    and nr: "\<not> (v = Failed \<and> RetryOnce (Output stage) = Some True)"
  obtain stageID ctx0 e1 ctx1 c1 e2 ctx2 response responseErr e3 ctx3 c3
    where ns: "doNewString env ctx = (stageID, ctx0)"
    and p1: "stageStartMarker env ctx0 c
           \<lparr> DestAddr = GetDestAddr (ApplyInputOverrides env (Config ctx0) (Input stage)),
             Port = GetPort (ApplyInputOverrides env (Config ctx0) (Input stage)),
             Protocol = GetProtocol (ApplyInputOverrides env (Config ctx0) (Input stage)) \<rparr>
           stageID (case ExpectError (Output stage) of None \<Rightarrow> False | Some b \<Rightarrow> b)
         = (e1, ctx1, c1)"
    and p2: "stageRequest env ctx1
           \<lparr> DestAddr = GetDestAddr (ApplyInputOverrides env (Config ctx0) (Input stage)),
             Port = GetPort (ApplyInputOverrides env (Config ctx0) (Input stage)),
             Protocol = GetProtocol (ApplyInputOverrides env (Config ctx0) (Input stage)) \<rparr>
           (ApplyInputOverrides env (Config ctx0) (Input stage))
           (case ExpectError (Output stage) of None \<Rightarrow> False | Some b \<Rightarrow> b)
         = (e2, ctx2, response, responseErr)"
    and p3: "stageEndMarker env ctx2 c1
           \<lparr> DestAddr = GetDestAddr (ApplyInputOverrides env (Config ctx0) (Input stage)),
             Port = GetPort (ApplyInputOverrides env (Config ctx0) (Input stage)),
             Protocol = GetProtocol (ApplyInputOverrides env (Config ctx0) (Input stage)) \<rparr>
           stageID (case ExpectError (Output stage) of None \<Rightarrow> False | Some b \<Rightarrow> b)
         = (e3, ctx3, c3)"
    by (rule RunStage_cases)
  show ?thesis
    using v nr
    unfolding RunStage_def stageVerdict_def Let_def ns prod.case p1 p2 p3
    by (cases e1; cases e2; cases e3)
       (auto simp add: stageCheck_def Let_def split: sum.splits if_splits)
qed

lemma kept_RunStage_error:
  "fst (RunStage env ctx c testCase stage) \<noteq> None \<Longrightarrow>
   Stats (fst (snd (RunStage env ctx c testCase stage))) = Stats ctx \<and>
   Result (fst (snd (RunStage env ctx c testCase stage))) = Result ctx"
proof -
  assume err: "fst (RunStage env ctx c testCase stage) \<noteq> None"
  obtain stageID ctx0 e1 ctx1 c1 e2 ctx2 response responseErr e3 ctx3 c3
    where ns: "doNewString env ctx = (stageID, ctx0)"
    and p1: "stageStartMarker env ctx0 c
           \<lparr> DestAddr = GetDestAddr (ApplyInputOverrides env (Config ctx0) (Input stage)),
             Port = GetPort (ApplyInputOverrides env (Config ctx0) (Input stage)),
             Protocol = GetProtocol (ApplyInputOverrides env (Config ctx0) (Input stage)) \<rparr>
           stageID (case ExpectError (Output stage) of None \<Rightarrow> False | Some b \<Rightarrow> b)
         = (e1, ctx1, c1)"
    and p2: "stageRequest env ctx1
           \<lparr> DestAddr = GetDestAddr (ApplyInputOverrides env (Config ctx0) (Input stage)),
             Port = GetPort (ApplyInputOverrides env (Config ctx0) (Input stage)),
             Protocol = GetProtocol (ApplyInputOverrides env (Config ctx0) (Input stage)) \<rparr>
           (ApplyInputOverrides env (Config ctx0) (Input stage))
           (case ExpectError (Output stage) of None \<Rightarrow> False | Some b \<Rightarrow> b)
         = (e2, ctx2, response, responseErr)"
    and p3: "stageEndMarker env ctx2 c1
           \<lparr> DestAddr = GetDestAddr (ApplyInputOverrides env (Config ctx0) (Input stage)),
             Port = GetPort (ApplyInputOverrides env (Config ctx0) (Input stage)),
             Protocol = GetProtocol (ApplyInputOverrides env (Config ctx0) (Input stage)) \<rparr>
           stageID (case ExpectError (Output stage) of None \<Rightarrow> False | Some b \<Rightarrow> b)
         = (e3, ctx3, c3)"
    and k: "Stats ctx0 = Stats ctx \<and> Result ctx0 = Result ctx"
      "Stats ctx1 = Stats ctx0 \<and> Result ctx1 = Result ctx0"
      "Stats ctx2 = Stats ctx1 \<and> Result ctx2 = Result ctx1"
      "Stats ctx3 = Stats ctx2 \<and> Result ctx3 = Result ctx2"
    by (rule RunStage_cases)
  show ?thesis
    using err k
    unfolding RunStage_def Let_def ns prod.case p1 p2 p3
    by (cases e1; cases e2; cases e3)
       (auto simp add: stageCheck_def Let_def split: sum.splits if_splits)
qed

text \<open>
  C7. A run of \<open>RunStage\<close> ends with the retry-once error exactly when the stage
  declares retry-once and the verdict of the run is Failed. For every stage that declares
  retry-once and whose first run has the verdict Failed, the loop over the stages runs
  \<open>RunStage\<close> for that stage exactly one more time, from the state and with the checker
  the first run left: what the loop returns is what this second run returns (its error
  and its state, or, when it ends without an error, the loop over the later stages from
  its state), and it has entered \<open>RunStage\<close> twice by then. When the second run has
  the verdict Failed as well, the loop ends there with the retry-once error and the state
  of the second run: there is no third run and no later stage is run, and neither run has
  recorded a verdict or a result.
\<close>

theorem retry_once_exactly_once:
  "(fst (RunStage env ctx c testCase stage) = Some errRetryOnce \<longleftrightarrow>
      RetryOnce (Output stage) = Some True \<and>
      stageVerdict env ctx c testCase stage = Some Failed) \<and>
   (NewFTWLogLines env (world ctx) = None \<and> RetryOnce (Output stage) = Some True \<and>
    stageVerdict env ctx (NewCheck (Config ctx)) testCase stage = Some Failed \<longrightarrow>
      (let first = RunStage env ctx (NewCheck (Config ctx)) testCase stage;
           second = RunStage env (fst (snd first)) (snd (snd first)) testCase stage
       in runStages env ctx testCase (stage # stages) =
            (case fst second of
               None \<Rightarrow> runStages env (fst (snd second)) testCase stages
             | Some err \<Rightarrow> (Some err, fst (snd second))) \<and>
          stageRuns (fst (snd second)) = stageRuns ctx + 2 \<and>
          (stageVerdict env (fst (snd first)) (snd (snd first)) testCase stage = Some Failed
             \<longrightarrow> runStages env ctx testCase (stage # stages)
                   = (Some errRetryOnce, fst (snd second)) \<and>
                 Stats (fst (snd second)) = Stats ctx \<and>
                 Result (fst (snd second)) = Result ctx)))"
proof (intro conjI impI)
  show "fst (RunStage env ctx c testCase stage) = Some errRetryOnce \<longleftrightarrow>
      RetryOnce (Output stage) = Some True \<and>
      stageVerdict env ctx c testCase stage = Some Failed"
    by (rule RunStage_retry_iff)
next
  assume asm: "NewFTWLogLines env (world ctx) = None \<and> RetryOnce (Output stage) = Some True \<and>
    stageVerdict env ctx (NewCheck (Config ctx)) testCase stage = Some Failed"
  then have f: "fst (RunStage env ctx (NewCheck (Config ctx)) testCase stage) = Some errRetryOnce"
    by (simp add: RunStage_retry_iff)
  then obtain ctx1 c1 where r1:
    "RunStage env ctx (NewCheck (Config ctx)) testCase stage = (Some errRetryOnce, ctx1, c1)"
    by (cases "RunStage env ctx (NewCheck (Config ctx)) testCase stage") auto
  have n1: "stageRuns ctx1 = stageRuns ctx + 1"
    using stageRuns_RunStage [of env ctx "NewCheck (Config ctx)" testCase stage] r1 by simp
  have k1: "Stats ctx1 = Stats ctx \<and> Result ctx1 = Result ctx"
    using kept_RunStage_error [of env ctx "NewCheck (Config ctx)" testCase stage] r1 by simp
  obtain e2 ctx2 c2 where r2: "RunStage env ctx1 c1 testCase stage = (e2, ctx2, c2)"
    by (cases "RunStage env ctx1 c1 testCase stage")
  have n2: "stageRuns ctx2 = stageRuns ctx + 2"
    using stageRuns_RunStage [of env ctx1 c1 testCase stage] r2 n1 by simp
  have loop: "runStages env ctx testCase (stage # stages) =
      (case e2 of None \<Rightarrow> runStages env ctx2 testCase stages | Some err \<Rightarrow> (Some err, ctx2))"
    using asm r1 r2 by (cases e2) simp_all
  have again: "stageVerdict env ctx1 c1 testCase stage = Some Failed \<Longrightarrow>
      e2 = Some errRetryOnce \<and> Stats ctx2 = Stats ctx \<and> Result ctx2 = Result ctx"
  proof -
    assume "stageVerdict env ctx1 c1 testCase stage = Some Failed"
    then have e: "fst (RunStage env ctx1 c1 testCase stage) = Some errRetryOnce"
      using asm by (simp add: RunStage_retry_iff)
    then have "Stats (fst (snd (RunStage env ctx1 c1 testCase stage))) = Stats ctx1 \<and>
        Result (fst (snd (RunStage env ctx1 c1 testCase stage))) = Result ctx1"
      by (intro kept_RunStage_error) simp
    with e r2 k1 show ?thesis by simp
  qed
  show "let first = RunStage env ctx (NewCheck (Config ctx)) testCase stage;
           second = RunStage env (fst (snd first)) (snd (snd first)) testCase stage
       in runStages env ctx testCase (stage # stages) =
            (case fst second of
               None \<Rightarrow> runStages env (fst (snd second)) testCase stages
             | Some err \<Rightarrow> (Some err, fst (snd second))) \<and>
          stageRuns (fst (snd second)) = stageRuns ctx + 2 \<and>
          (stageVerdict env (fst (snd first)) (snd (snd first)) testCase stage = Some Failed
             \<longrightarrow> runStages env ctx testCase (stage # stages)
                   = (Some errRetryOnce, fst (snd second)) \<and>
                 Stats (fst (snd second)) = Stats ctx \<and>
                 Result (fst (snd second)) = Result ctx)"
    unfolding Let_def r1 fst_conv snd_conv r2
    using loop n2 again by (cases e2) (auto simp del: runStages.simps)
qed

theorem retry_once_exactly_once_witness:
  "(let first = RunStage exampleEnv exampleContext (NewCheck (Config exampleContext))
                  exampleTest exampleStage;
        second = RunStage exampleEnv (fst (snd first)) (snd (snd first)) exampleTest exampleStage
    in NewFTWLogLines exampleEnv (world exampleContext) = None \<and>
       RetryOnce (Output exampleStage) = Some True \<and>
       stageVerdict exampleEnv exampleContext (NewCheck (Config exampleContext)) exampleTest
         exampleStage = Some Failed \<and>
       stageVerdict exampleEnv (fst (snd first)) (snd (snd first)) exampleTest exampleStage
         = Some Failed \<and>
       fst first = Some errRetryOnce \<and>
       runStages exampleEnv exampleContext exampleTest [exampleStage, exampleStage]
         = (Some errRetryOnce, fst (snd second)) \<and>
       stageRuns (fst (snd second)) = stageRuns exampleContext + 2 \<and>
       Stats (fst (snd second)) = Stats exampleContext \<and>
       Result (fst (snd second)) = Result exampleContext)"
proof -
  have h1: "NewFTWLogLines exampleEnv (world exampleContext) = None"
    by code_simp
  have h2: "RetryOnce (Output exampleStage) = Some True"
    by code_simp
  have h3: "stageVerdict exampleEnv exampleContext (NewCheck (Config exampleContext)) exampleTest
              exampleStage = Some Failed"
    by code_simp
  have h4: "stageVerdict exampleEnv
              (fst (snd (RunStage exampleEnv exampleContext (NewCheck (Config exampleContext))
                           exampleTest exampleStage)))
              (snd (snd (RunStage exampleEnv exampleContext (NewCheck (Config exampleContext))
                           exampleTest exampleStage)))
              exampleTest exampleStage = Some Failed"
    by code_simp
  show ?thesis
    using h1 h2 h3 h4
      retry_once_exactly_once [of exampleEnv exampleContext "NewCheck (Config exampleContext)"
        exampleTest exampleStage "[exampleStage]"]
    unfolding Let_def
    by blast
qed

section \<open>The window between the markers\<close>




text \<open>
  C2 at a file of four lines: the start marker, a line \<open>a\<close>, the end marker, and a line
  \<open>b\<close> appended after the end marker. The window holds \<open>b\<close> beside \<open>a\<close>.
\<close>

theorem getMarkedLines_line_after_end_marker:
  "getMarkedLines (Some [''x-m id0'', ''a'', ''x-m id1'', ''b''])
     \<lparr> StartMarker = ''x-m id0'', EndMarker = ''x-m id1'' \<rparr> = [''b'', ''a'']"
  by code_simp

section \<open>The verdict of the checker\<close>








section \<open>The error expectation\<close>

text \<open>
  C5. Whatever the response, the log and the other expectations are: when the stage
  expects an error, the verdict is Success if an error occurred and Failed if none
  occurred; when the stage does not expect an error and an error occurred, the verdict is
  Failed (no other criterion is looked at: the verdict does not depend on them, and a
  pattern that would end the process is never compiled); and when no error occurred and
  the response is nil, the verdict is Failed.
\<close>

theorem checkResult_error_expectation:
  "(ExpectError (expected c) = Some True \<longrightarrow>
      checkResult rx logFile c response responseError =
        Inr (if responseError \<noteq> None then Success else Failed)) \<and>
   (ExpectError (expected c) \<noteq> Some True \<and> responseError \<noteq> None \<longrightarrow>
      checkResult rx logFile c response responseError = Inr Failed) \<and>
   (responseError = None \<and> response = None \<longrightarrow>
      checkResult rx logFile c response responseError = Inr Failed)"
  by (auto simp: checkResult_def AssertExpectError_def split: option.splits)

theorem checkResult_error_expectation_witness:
  "ExpectError (expected errorExpectedCheck) = Some True \<and>
   checkResult exampleCompile None errorExpectedCheck None (Some ''i/o timeout'') = Inr Success \<and>
   checkResult exampleCompile None errorExpectedCheck (Some okResponse) None = Inr Failed \<and>
   ExpectError (expected malformedCheck) \<noteq> Some True \<and>
   checkResult exampleCompile (Some [''a'']) malformedCheck (Some okResponse) (Some ''i/o timeout'')
     = Inr Failed \<and>
   checkResult exampleCompile (Some [''a'']) malformedCheck None None = Inr Failed"
proof -
  have h1: "ExpectError (expected errorExpectedCheck) = Some True"
    by code_simp
  have h2: "ExpectError (expected malformedCheck) \<noteq> Some True"
    by code_simp
  show ?thesis
    using h1 h2
      checkResult_error_expectation [of errorExpectedCheck exampleCompile None None
        "Some ''i/o timeout''"]
      checkResult_error_expectation [of errorExpectedCheck exampleCompile None "Some okResponse"
        None]
      checkResult_error_expectation [of malformedCheck exampleCompile "Some [''a'']"
        "Some okResponse" "Some ''i/o timeout''"]
      checkResult_error_expectation [of malformedCheck exampleCompile "Some [''a'']" None None]
    by simp
qed

section \<open>An empty log window\<close>



section \<open>The search for a marker\<close>

lemma headerLoop_found:
  "find (\<lambda>l. bytes_Contains (bytes_ToLower l) h) (take (nat (readLimit - k + 1)) ls) = Some l \<Longrightarrow>
   headerLoop h readLimit k ls = Inr (bytes_ToLower l)"
proof (induction ls arbitrary: k)
  case Nil
  then show ?case by simp
next
  case (Cons x xs)
  show ?case
  proof (cases "k > readLimit")
    case True
    then have "nat (readLimit - k + 1) = 0" by simp
    with Cons.prems show ?thesis by simp
  next
    case False
    then obtain n where n: "nat (readLimit - k + 1) = Suc n"
      by (cases "nat (readLimit - k + 1)") auto
    then have n': "nat (readLimit - (k + 1) + 1) = n" by linarith
    show ?thesis
    proof (cases "bytes_Contains (bytes_ToLower x) h")
      case True
      with Cons.prems n False show ?thesis by simp
    next
      case nh: False
      with Cons.prems n have "find (\<lambda>l. bytes_Contains (bytes_ToLower l) h) (take n xs) = Some l"
        by simp
      with n' have "headerLoop h readLimit (k + 1) xs = Inr (bytes_ToLower l)"
        using Cons.IH [of "k + 1"] by simp
      with nh False show ?thesis by simp
    qed
  qed
qed

lemma headerLoop_none:
  "find (\<lambda>l. bytes_Contains (bytes_ToLower l) h) (take (nat (readLimit - k + 1)) ls) = None \<Longrightarrow>
   \<exists>r. headerLoop h readLimit k ls = Inl (None, r)"
proof (induction ls arbitrary: k)
  case Nil
  then show ?case by auto
next
  case (Cons x xs)
  show ?case
  proof (cases "k > readLimit")
    case True
    then show ?thesis by auto
  next
    case False
    then obtain n where n: "nat (readLimit - k + 1) = Suc n"
      by (cases "nat (readLimit - k + 1)") auto
    then have n': "nat (readLimit - (k + 1) + 1) = n" by linarith
    from Cons.prems n have nh: "\<not> bytes_Contains (bytes_ToLower x) h"
      and "find (\<lambda>l. bytes_Contains (bytes_ToLower l) h) (take n xs) = None"
      by (auto split: if_splits)
    with n' have "\<exists>r. headerLoop h readLimit (k + 1) xs = Inl (None, r)"
      using Cons.IH [of "k + 1"] by simp
    with nh False show ?thesis by simp
  qed
qed

lemma find_take_mono:
  "find P (take n xs) = Some l \<Longrightarrow> find P (take (n + m) xs) = Some l"
proof (induction xs arbitrary: n)
  case Nil
  then show ?case by simp
next
  case (Cons x xs)
  then show ?case by (cases n) (auto split: if_splits)
qed

text \<open>
  C4, as the code has it. The search reads the file backward, lowercases each line and
  stops at the first line that contains the marker header's name: the nearest header
  line. For a stage ID in lowercase (the IDs are lowercase UUIDs): when the nearest header
  line lies among the newest \<open>readLimit\<close> lines, the search succeeds exactly when that
  line contains the stage ID too, and it returns the line in lowercase; when that line
  lacks the stage ID the search reports not-found, whatever the older lines hold. When
  none of the newest \<open>readLimit + 1\<close> lines contains the header's name, no marker is
  returned.
\<close>

theorem CheckLogForMarker_nearest_header:
  assumes "bytes_ToLower stageID = stageID"
  shows "(nearestHeaderLine headerName (nat readLimit) lines = Some l \<longrightarrow>
            CheckLogForMarker headerName (Some lines) stageID readLimit =
              (if lineHasStageID stageID l then (Some (bytes_ToLower l), False)
               else (None, False))) \<and>
         (nearestHeaderLine headerName (nat readLimit + 1) lines = None \<longrightarrow>
            fst (CheckLogForMarker headerName (Some lines) stageID readLimit) = None)"
proof (intro conjI impI)
  assume a: "nearestHeaderLine headerName (nat readLimit) lines = Some l"
  then have rl: "0 < readLimit"
    by (cases "0 < readLimit") (auto simp: nearestHeaderLine_def)
  from a have "find (lineHasHeader headerName) (take (nat readLimit + 1) (rev lines)) = Some l"
    unfolding nearestHeaderLine_def by (rule find_take_mono)
  moreover have "nat readLimit + 1 = nat (readLimit - 0 + 1)" using rl by simp
  ultimately have "find (\<lambda>l. bytes_Contains (bytes_ToLower l) (bytes_ToLower headerName))
      (take (nat (readLimit - 0 + 1)) (rev lines)) = Some l"
    by (simp add: lineHasHeader_def [abs_def])
  then have "headerLoop (bytes_ToLower headerName) readLimit 0 (rev lines) = Inr (bytes_ToLower l)"
    by (rule headerLoop_found)
  then show "CheckLogForMarker headerName (Some lines) stageID readLimit =
      (if lineHasStageID stageID l then (Some (bytes_ToLower l), False) else (None, False))"
    using assms by (simp add: CheckLogForMarker_def lineHasStageID_def)
next
  assume a: "nearestHeaderLine headerName (nat readLimit + 1) lines = None"
  show "fst (CheckLogForMarker headerName (Some lines) stageID readLimit) = None"
  proof (cases "0 \<le> readLimit")
    case True
    then have "nat readLimit + 1 = nat (readLimit - 0 + 1)" by simp
    with a have "find (\<lambda>l. bytes_Contains (bytes_ToLower l) (bytes_ToLower headerName))
        (take (nat (readLimit - 0 + 1)) (rev lines)) = None"
      by (simp add: nearestHeaderLine_def lineHasHeader_def [abs_def])
    then obtain r where
      "headerLoop (bytes_ToLower headerName) readLimit 0 (rev lines) = Inl (None, r)"
      using headerLoop_none by blast
    then show ?thesis by (simp add: CheckLogForMarker_def)
  next
    case False
    then have "headerLoop (bytes_ToLower headerName) readLimit 0 (rev lines) = Inl (None, True)"
      by (cases "rev lines") auto
    then show ?thesis by (simp add: CheckLogForMarker_def)
  qed
qed

theorem CheckLogForMarker_nearest_header_witness:
  "bytes_ToLower ''id1'' = ''id1'' \<and>
   nearestHeaderLine ''X-M'' (nat 5) [''a'', ''X-M: ID1'', ''b''] = Some ''X-M: ID1'' \<and>
   lineHasStageID ''id1'' ''X-M: ID1'' \<and>
   CheckLogForMarker ''X-M'' (Some [''a'', ''X-M: ID1'', ''b'']) ''id1'' 5
     = (Some ''x-m: id1'', False) \<and>
   nearestHeaderLine ''X-M'' (nat 5) [''x-m: id1'', ''x-m: id2''] = Some ''x-m: id2'' \<and>
   CheckLogForMarker ''X-M'' (Some [''x-m: id1'', ''x-m: id2'']) ''id1'' 5 = (None, False) \<and>
   nearestHeaderLine ''X-M'' (nat 1 + 1) [''x-m: id1'', ''a'', ''b''] = None \<and>
   fst (CheckLogForMarker ''X-M'' (Some [''x-m: id1'', ''a'', ''b'']) ''id1'' 1) = None"
proof -
  have h: "bytes_ToLower ''id1'' = ''id1''"
    by code_simp
  have n1: "nearestHeaderLine ''X-M'' (nat 5) [''a'', ''X-M: ID1'', ''b''] = Some ''X-M: ID1''"
    by code_simp
  have s1: "lineHasStageID ''id1'' ''X-M: ID1''"
    by code_simp
  have l1: "bytes_ToLower ''X-M: ID1'' = ''x-m: id1''"
    by code_simp
  have n2: "nearestHeaderLine ''X-M'' (nat 5) [''x-m: id1'', ''x-m: id2''] = Some ''x-m: id2''"
    by code_simp
  have s2: "\<not> lineHasStageID ''id1'' ''x-m: id2''"
    by code_simp
  have n3: "nearestHeaderLine ''X-M'' (nat 1 + 1) [''x-m: id1'', ''a'', ''b''] = None"
    by code_simp
  show ?thesis
    using h n1 s1 l1 n2 s2 n3
      CheckLogForMarker_nearest_header [OF h, of "''X-M''" 5 "[''a'', ''X-M: ID1'', ''b'']"
        "''X-M: ID1''"]
      CheckLogForMarker_nearest_header [OF h, of "''X-M''" 5 "[''x-m: id1'', ''x-m: id2'']"
        "''x-m: id2''"]
      CheckLogForMarker_nearest_header [OF h, of "''X-M''" 1 "[''x-m: id1'', ''a'', ''b'']"]
    by (simp only: simp_thms if_True if_False)
qed

text \<open>
  The claim as it was written fails: the older of two lines contains the header's name
  and the stage ID and lies well within the limit, and the search reports not-found,
  because the newer line contains the header's name with another stage ID.
\<close>

theorem CheckLogForMarker_older_marker_counterexample:
  "lineHasHeader ''X-M'' ''x-m: id1'' \<and> lineHasStageID ''id1'' ''x-m: id1'' \<and>
   CheckLogForMarker ''X-M'' (Some [''x-m: id1'', ''x-m: id2'']) ''id1'' 5 = (None, False)"
  by code_simp

section \<open>The limit of the search\<close>

text \<open>
  The search is a total function: it returns for every file and every limit. When no
  line contains the header's name it returns no marker, and the flag that it aborted is
  up exactly when the limit is negative or the file has more than \<open>readLimit\<close> lines;
  otherwise it has met the end of the file first.
\<close>

lemma headerLoop_no_header:
  "\<forall>l \<in> set ls. \<not> bytes_Contains (bytes_ToLower l) h \<Longrightarrow>
   headerLoop h readLimit k ls =
     Inl (None, k > readLimit \<or> int (length ls) > readLimit - k)"
proof (induction ls arbitrary: k)
  case Nil
  then show ?case by simp
next
  case (Cons x xs)
  then have "headerLoop h readLimit (k + 1) xs =
      Inl (None, k + 1 > readLimit \<or> int (length xs) > readLimit - (k + 1))"
    by simp
  with Cons.prems show ?case by auto
qed

lemma CheckLogForMarker_no_header:
  assumes "\<forall>l \<in> set lines. \<not> lineHasHeader headerName l"
  shows "CheckLogForMarker headerName (Some lines) stageID readLimit =
           (None, readLimit < 0 \<or> int (length lines) > readLimit)"
proof -
  have "\<forall>l \<in> set (rev lines). \<not> bytes_Contains (bytes_ToLower l) (bytes_ToLower headerName)"
    using assms by (simp add: lineHasHeader_def)
  then have "headerLoop (bytes_ToLower headerName) readLimit 0 (rev lines) =
      Inl (None, 0 > readLimit \<or> int (length (rev lines)) > readLimit - 0)"
    by (rule headerLoop_no_header)
  then show ?thesis by (simp add: CheckLogForMarker_def)
qed

text \<open>
  C6 at a limit of one line and a file of two lines, the older of which is the marker
  line: the search returns the marker, so it has inspected two lines.
\<close>

theorem CheckLogForMarker_reads_past_limit:
  "CheckLogForMarker ''X-M'' (Some [''x-m: id1'', ''other'']) ''id1'' 1
     = (Some ''x-m: id1'', False)"
  by code_simp

end
